theory Spec2Isabelle
  imports Complex_Main
begin

section \<open>Recipe cost model\<close>

text \<open>
  A shallow embedding of \<^verbatim>\<open>src/python.py\<close>: the class \<^verbatim>\<open>RecipeCost\<close>, the decorator
  \<^verbatim>\<open>validate_ingredient_input\<close> and the export helper \<^verbatim>\<open>save_to_csv\<close>.

  Modelling decisions:
  \<^item> The values are typed as the program's own caller \<^verbatim>\<open>run_recipe_cost_demo\<close> produces
    them: quantities and prices are Python floats (\<^verbatim>\<open>float(input())\<close>), \<^verbatim>\<open>servings\<close> is an
    unbounded Python int (\<^verbatim>\<open>int(input())\<close>), names are strings.
  \<^item> A float is a value of \<open>pyfloat\<close>: a finite value, an infinity or NaN. A finite
    float is identified with the real number it denotes (so \<^verbatim>\<open>0.0\<close> and \<^verbatim>\<open>-0.0\<close> are one
    value), and arithmetic on finite floats is exact: rounding of a result, its overflow
    to an infinity and its underflow to zero are not modelled. Special values behave as
    in Python: an operation on NaN gives NaN, every comparison with NaN is false, and
    the infinities follow the IEEE rules.
  \<^item> A number that may be an int or a float (the result of \<^verbatim>\<open>sum\<close>, of \<^verbatim>\<open>/\<close>, the
    \<^verbatim>\<open>0\<close> literals that are returned) is a value of \<open>pynum\<close>.
  \<^item> A Python \<^verbatim>\<open>dict\<close> is an association list in insertion order (the order of
    \<^verbatim>\<open>.items()\<close> and \<^verbatim>\<open>.keys()\<close>); \<^verbatim>\<open>.get\<close> is \<open>map_of\<close>. That a dict has no
    duplicate key is the predicate \<open>dict_ok\<close>.
  \<^item> A raised exception is a value \<open>Inl e\<close>; a method that mutates \<^verbatim>\<open>self\<close> returns the
    object after the call together with its outcome. The query methods are given twice:
    as functions of the object, and as methods that take the object and return it with
    their result (suffix \<open>_st\<close>), for the statement that they leave it unchanged.
  \<^item> The iteration order of a Python \<^verbatim>\<open>set\<close> of strings depends on the hash seed of the
    process. It is a parameter \<open>iter\<close>: the function from the sequence of elements
    inserted to the sequence in which the set is iterated.
\<close>

subsection \<open>Python numbers\<close>

datatype error = ValueError string | ZeroDivisionError string | OverflowError string

datatype pyfloat = Fin real | PInf | NInf | NaN

datatype pynum = PyInt int | PyFloat pyfloat

text \<open>Float addition, multiplication and the comparisons \<^verbatim>\<open><=\<close> and \<^verbatim>\<open><\<close>. None of them
  raises. The float \<open>0\<close> is also what the int literal \<^verbatim>\<open>0\<close> is converted to when it is
  compared with or added to a float.\<close>

instantiation pyfloat :: "{zero, plus, times, ord}"
begin

definition zero_pyfloat :: pyfloat where
  "zero_pyfloat = Fin 0"

fun plus_pyfloat :: "pyfloat \<Rightarrow> pyfloat \<Rightarrow> pyfloat" where
  "plus_pyfloat NaN y = NaN"
| "plus_pyfloat x NaN = NaN"
| "plus_pyfloat (Fin a) (Fin b) = Fin (a + b)"
| "plus_pyfloat PInf NInf = NaN"
| "plus_pyfloat NInf PInf = NaN"
| "plus_pyfloat PInf y = PInf"
| "plus_pyfloat x PInf = PInf"
| "plus_pyfloat NInf y = NInf"
| "plus_pyfloat x NInf = NInf"

fun times_pyfloat :: "pyfloat \<Rightarrow> pyfloat \<Rightarrow> pyfloat" where
  "times_pyfloat NaN y = NaN"
| "times_pyfloat x NaN = NaN"
| "times_pyfloat (Fin a) (Fin b) = Fin (a * b)"
| "times_pyfloat (Fin a) PInf = (if a = 0 then NaN else if 0 < a then PInf else NInf)"
| "times_pyfloat (Fin a) NInf = (if a = 0 then NaN else if 0 < a then NInf else PInf)"
| "times_pyfloat PInf (Fin b) = (if b = 0 then NaN else if 0 < b then PInf else NInf)"
| "times_pyfloat NInf (Fin b) = (if b = 0 then NaN else if 0 < b then NInf else PInf)"
| "times_pyfloat PInf PInf = PInf"
| "times_pyfloat NInf NInf = PInf"
| "times_pyfloat PInf NInf = NInf"
| "times_pyfloat NInf PInf = NInf"

fun less_eq_pyfloat :: "pyfloat \<Rightarrow> pyfloat \<Rightarrow> bool" where
  "less_eq_pyfloat NaN y = False"
| "less_eq_pyfloat x NaN = False"
| "less_eq_pyfloat NInf y = True"
| "less_eq_pyfloat x PInf = True"
| "less_eq_pyfloat (Fin a) (Fin b) = (a \<le> b)"
| "less_eq_pyfloat x y = False"

fun less_pyfloat :: "pyfloat \<Rightarrow> pyfloat \<Rightarrow> bool" where
  "less_pyfloat NaN y = False"
| "less_pyfloat x NaN = False"
| "less_pyfloat NInf NInf = False"
| "less_pyfloat PInf PInf = False"
| "less_pyfloat NInf y = True"
| "less_pyfloat x PInf = True"
| "less_pyfloat (Fin a) (Fin b) = (a < b)"
| "less_pyfloat x y = False"

instance ..

end

instance pyfloat :: comm_monoid_add
proof
  fix u v w :: pyfloat
  have "Fin 0 + u = u"
    by (cases u) simp_all
  then show "0 + u = u"
    unfolding zero_pyfloat_def .
  show "u + v = v + u"
  proof (cases u)
    case (Fin x)
    then show ?thesis by (cases v) simp_all
  qed (cases v; simp)+
  show "u + v + w = u + (v + w)"
    by (cases w; cases v; cases u; simp)
qed

text \<open>The numeric value of an int or a float, for the comparisons, which Python makes
  exactly between the two kinds.\<close>

fun num_val :: "pynum \<Rightarrow> pyfloat" where
  "num_val (PyInt n) = Fin (real_of_int n)"
| "num_val (PyFloat x) = x"

instantiation pynum :: ord
begin

definition less_eq_pynum :: "pynum \<Rightarrow> pynum \<Rightarrow> bool" where
  "less_eq_pynum a b = (num_val a \<le> num_val b)"

definition less_pynum :: "pynum \<Rightarrow> pynum \<Rightarrow> bool" where
  "less_pynum a b = (num_val a < num_val b)"

instance ..

end

fun is_nan :: "pynum \<Rightarrow> bool" where
  "is_nan (PyFloat NaN) = True"
| "is_nan v = False"

text \<open>The conversion of an int operand to a float in mixed arithmetic. It raises when
  the int rounds to a magnitude beyond the largest double, that is from
  \<open>2^1024 - 2^970\<close> on.\<close>

definition dbl_overflow :: int where
  "dbl_overflow = 2 ^ 1024 - 2 ^ 970"

definition float_of_int :: "int \<Rightarrow> error + pyfloat" where
  "float_of_int n =
     (if dbl_overflow \<le> \<bar>n\<bar> then Inl (OverflowError ''int too large to convert to float'')
      else Inr (Fin (real_of_int n)))"

text \<open>IEEE division of floats by a divisor that is not zero.\<close>

fun fdiv :: "pyfloat \<Rightarrow> pyfloat \<Rightarrow> pyfloat" where
  "fdiv NaN y = NaN"
| "fdiv x NaN = NaN"
| "fdiv (Fin a) (Fin b) = Fin (a / b)"
| "fdiv (Fin a) y = Fin 0"
| "fdiv PInf (Fin b) = (if 0 < b then PInf else NInf)"
| "fdiv NInf (Fin b) = (if 0 < b then NInf else PInf)"
| "fdiv x y = NaN"

definition float_truediv :: "pyfloat \<Rightarrow> pyfloat \<Rightarrow> error + pynum" where
  "float_truediv a b =
     (if b = Fin 0 then Inl (ZeroDivisionError ''float division by zero'')
      else Inr (PyFloat (fdiv a b)))"

text \<open>Python's \<^verbatim>\<open>/\<close>. Between two ints the quotient is computed from the ints and only
  its magnitude can be out of range; an int beside a float is converted first.\<close>

fun py_truediv :: "pynum \<Rightarrow> pynum \<Rightarrow> error + pynum" where
  "py_truediv (PyInt m) (PyInt n) =
     (if n = 0 then Inl (ZeroDivisionError ''division by zero'')
      else if real_of_int dbl_overflow \<le> \<bar>real_of_int m / real_of_int n\<bar>
        then Inl (OverflowError ''integer division result too large for a float'')
      else Inr (PyFloat (Fin (real_of_int m / real_of_int n))))"
| "py_truediv (PyFloat a) (PyInt n) =
     (case float_of_int n of Inl e \<Rightarrow> Inl e | Inr b \<Rightarrow> float_truediv a b)"
| "py_truediv (PyInt m) (PyFloat b) =
     (case float_of_int m of Inl e \<Rightarrow> Inl e | Inr a \<Rightarrow> float_truediv a b)"
| "py_truediv (PyFloat a) (PyFloat b) = float_truediv a b"

text \<open>Python's \<^verbatim>\<open>sum\<close> of a list of floats: from the int \<^verbatim>\<open>0\<close>, adding from the left. The
  only int the accumulator ever holds is that \<^verbatim>\<open>0\<close>, which converts exactly.\<close>

definition py_sum :: "pyfloat list \<Rightarrow> pynum" where
  "py_sum xs = fold (\<lambda>x acc. PyFloat (num_val acc + x)) xs (PyInt 0)"

subsection \<open>Data\<close>

type_synonym price_dict = "(string \<times> pyfloat) list"

text \<open>The ingredient dictionary built in \<^verbatim>\<open>add_ingredient\<close>, with its three keys
  \<^verbatim>\<open>"name"\<close>, \<^verbatim>\<open>"quantity"\<close> and \<^verbatim>\<open>"price_by_store"\<close>.\<close>

record ingredient =
  ing_name :: string
  quantity :: pyfloat
  price_by_store :: price_dict

record RecipeCost =
  name :: string
  servings :: int
  ingredients :: "ingredient list"

definition dict_ok :: "price_dict \<Rightarrow> bool" where
  "dict_ok d = distinct (map fst d)"

definition recipe_ok :: "RecipeCost \<Rightarrow> bool" where
  "recipe_ok r = list_all (\<lambda>ing. dict_ok (price_by_store ing)) (ingredients r)"

subsection \<open>Constructor and validated insertion\<close>

definition RecipeCost_init :: "string \<Rightarrow> int \<Rightarrow> RecipeCost" where
  "RecipeCost_init nm n = \<lparr>name = nm, servings = n, ingredients = []\<rparr>"

text \<open>The loop over \<^verbatim>\<open>price_by_store.items()\<close> of the decorator: it raises at the first
  price for which \<^verbatim>\<open>price <= 0\<close> is true.\<close>

fun check_prices :: "price_dict \<Rightarrow> error option" where
  "check_prices [] = None"
| "check_prices ((store, price) # rest) =
     (if price \<le> 0
      then Some (ValueError (''Price for store '' @ [CHR 0x27] @ store @ [CHR 0x27]
                  @ '' must be positive''))
      else check_prices rest)"

text \<open>The decorator: \<open>func\<close> is the wrapped method. The argument is typed as a dict, so
  the \<^verbatim>\<open>isinstance\<close> test of the source is true and only emptiness is left.\<close>

definition validate_ingredient_input ::
  "(RecipeCost \<Rightarrow> string \<Rightarrow> pyfloat \<Rightarrow> price_dict \<Rightarrow> RecipeCost \<times> (error + unit)) \<Rightarrow>
   RecipeCost \<Rightarrow> string \<Rightarrow> pyfloat \<Rightarrow> price_dict \<Rightarrow> RecipeCost \<times> (error + unit)" where
  "validate_ingredient_input func self nm qty pbs =
     (if nm = [] then (self, Inl (ValueError ''Ingredient name cannot be empty''))
      else if qty \<le> 0 then (self, Inl (ValueError ''Quantity must be positive''))
      else if pbs = []
        then (self, Inl (ValueError ''price_by_store must be a non-empty dictionary''))
      else (case check_prices pbs of
              Some e \<Rightarrow> (self, Inl e)
            | None \<Rightarrow> func self nm qty pbs))"

text \<open>The undecorated body of \<^verbatim>\<open>add_ingredient\<close>.\<close>

definition add_ingredient_body ::
  "RecipeCost \<Rightarrow> string \<Rightarrow> pyfloat \<Rightarrow> price_dict \<Rightarrow> RecipeCost \<times> (error + unit)" where
  "add_ingredient_body self nm qty pbs =
     (self\<lparr>ingredients := ingredients self
               @ [\<lparr>ing_name = nm, quantity = qty, price_by_store = pbs\<rparr>]\<rparr>,
      Inr ())"

definition add_ingredient ::
  "RecipeCost \<Rightarrow> string \<Rightarrow> pyfloat \<Rightarrow> price_dict \<Rightarrow> RecipeCost \<times> (error + unit)" where
  "add_ingredient = validate_ingredient_input add_ingredient_body"

subsection \<open>Queries\<close>

text \<open>\<^verbatim>\<open>ingredient_cost_for_store\<close> does not read \<^verbatim>\<open>self\<close>; the parameter is left out.\<close>

definition cost_func :: "pyfloat \<Rightarrow> pyfloat \<Rightarrow> pyfloat" where
  "cost_func qty price = qty * price"

definition ingredient_cost_for_store :: "ingredient \<Rightarrow> string \<Rightarrow> pyfloat option" where
  "ingredient_cost_for_store ing store_name =
     (case map_of (price_by_store ing) store_name of
        None \<Rightarrow> None
      | Some price \<Rightarrow> Some (cost_func (quantity ing) price))"

text \<open>The loop of \<^verbatim>\<open>total_cost_at_store\<close>, with the list \<^verbatim>\<open>costs\<close> as accumulator.\<close>

fun collect_costs :: "ingredient list \<Rightarrow> string \<Rightarrow> pyfloat list \<Rightarrow> pyfloat list" where
  "collect_costs [] store_name costs = costs"
| "collect_costs (ing # rest) store_name costs =
     (case ingredient_cost_for_store ing store_name of
        None \<Rightarrow> collect_costs rest store_name costs
      | Some c \<Rightarrow> collect_costs rest store_name (costs @ [c]))"

definition total_cost_at_store :: "RecipeCost \<Rightarrow> string \<Rightarrow> pynum" where
  "total_cost_at_store self store_name = py_sum (collect_costs (ingredients self) store_name [])"

text \<open>The total is computed first; the division is reached only when \<^verbatim>\<open>servings\<close> is not
  zero, and it can raise.\<close>

definition per_serving_cost :: "RecipeCost \<Rightarrow> string \<Rightarrow> error + pynum" where
  "per_serving_cost self store_name =
     (let total = total_cost_at_store self store_name
      in if servings self = 0 then Inr (PyInt 0)
         else py_truediv total (PyInt (servings self)))"

text \<open>Python's \<^verbatim>\<open>min(xs, key=k)\<close>: the first element is the candidate, and a later
  element replaces it only when its key compares \<^verbatim>\<open><\<close> with the candidate's. It raises
  \<^verbatim>\<open>ValueError\<close> on an empty sequence.\<close>

fun min_loop :: "('a \<Rightarrow> 'b::ord) \<Rightarrow> 'a \<Rightarrow> 'a list \<Rightarrow> 'a" where
  "min_loop key best [] = best"
| "min_loop key best (x # xs) = min_loop key (if key x < key best then x else best) xs"

definition py_min :: "('a \<Rightarrow> 'b::ord) \<Rightarrow> 'a list \<Rightarrow> error + 'a" where
  "py_min key xs =
     (case xs of
        [] \<Rightarrow> Inl (ValueError ''min() iterable argument is empty'')
      | x # rest \<Rightarrow> Inr (min_loop key x rest))"

text \<open>The elements the set comprehension of \<^verbatim>\<open>cheapest_store\<close> inserts, in order.\<close>

definition store_names :: "RecipeCost \<Rightarrow> string list" where
  "store_names self = concat (map (\<lambda>ing. map fst (price_by_store ing)) (ingredients self))"

text \<open>The loop that fills \<^verbatim>\<open>store_costs\<close>.\<close>

fun collect_store_costs ::
  "RecipeCost \<Rightarrow> string list \<Rightarrow> (string \<times> pynum) list \<Rightarrow> (string \<times> pynum) list" where
  "collect_store_costs self [] store_costs = store_costs"
| "collect_store_costs self (store # rest) store_costs =
     collect_store_costs self rest (store_costs @ [(store, total_cost_at_store self store)])"

definition cheapest_store ::
  "(string list \<Rightarrow> string list) \<Rightarrow> RecipeCost \<Rightarrow> error + (string option \<times> pynum)" where
  "cheapest_store iter self =
     (if ingredients self = [] then Inr (None, PyInt 0)
      else
        let all_stores = iter (store_names self);
            store_costs = collect_store_costs self all_stores []
        in case py_min snd store_costs of
             Inl e \<Rightarrow> Inl e
           | Inr (store, c) \<Rightarrow> Inr (Some store, c))"

text \<open>What every iteration order of a set satisfies: each element once.\<close>

definition set_iteration :: "(string list \<Rightarrow> string list) \<Rightarrow> bool" where
  "set_iteration iter = (\<forall>xs. distinct (iter xs) \<and> set (iter xs) = set xs)"

subsection \<open>CSV export\<close>

record csv_row =
  row_ingredient :: string
  row_quantity :: pyfloat
  row_store :: string
  row_price_per_unit :: pyfloat
  row_cost :: pyfloat

datatype csv_line = HeaderLine "string list" | DataLine csv_row

definition fieldnames :: "string list" where
  "fieldnames = [''ingredient'', ''quantity'', ''store'', ''price_per_unit'', ''cost'']"

text \<open>The inner and the outer loop of \<^verbatim>\<open>save_to_csv\<close>; \<open>out\<close> is the content written
  to the file so far.\<close>

fun write_store_rows ::
  "string \<Rightarrow> pyfloat \<Rightarrow> price_dict \<Rightarrow> csv_line list \<Rightarrow> csv_line list" where
  "write_store_rows nm qty [] out = out"
| "write_store_rows nm qty ((store, price) # rest) out =
     write_store_rows nm qty rest
       (out @ [DataLine \<lparr>row_ingredient = nm, row_quantity = qty, row_store = store,
                         row_price_per_unit = price, row_cost = qty * price\<rparr>])"

fun write_ingredients :: "ingredient list \<Rightarrow> csv_line list \<Rightarrow> csv_line list" where
  "write_ingredients [] out = out"
| "write_ingredients (ing # rest) out =
     write_ingredients rest
       (write_store_rows (ing_name ing) (quantity ing) (price_by_store ing) out)"

definition save_to_csv :: "RecipeCost \<Rightarrow> csv_line list" where
  "save_to_csv recipe = write_ingredients (ingredients recipe) [HeaderLine fieldnames]"

text \<open>Reading the export back: the data rows, and Python's \<^verbatim>\<open>sum\<close> of the cost column over
  the rows of one store.\<close>

fun data_rows :: "csv_line list \<Rightarrow> csv_row list" where
  "data_rows [] = []"
| "data_rows (HeaderLine h # rest) = data_rows rest"
| "data_rows (DataLine rw # rest) = rw # data_rows rest"

definition csv_cost_sum :: "csv_line list \<Rightarrow> string \<Rightarrow> pynum" where
  "csv_cost_sum file store_name =
     py_sum (map row_cost (filter (\<lambda>rw. row_store rw = store_name) (data_rows file)))"

subsection \<open>The queries as methods on the object\<close>

text \<open>The four query methods once more, each statement of the source now taking the
  object \<^verbatim>\<open>self\<close> and handing it on: a method returns the object as it is after the call
  together with its result. A method called from another one receives the object the
  caller holds at that point and the caller goes on with the object the callee returns.\<close>

definition ingredient_cost_for_store_st ::
  "RecipeCost \<Rightarrow> ingredient \<Rightarrow> string \<Rightarrow> RecipeCost \<times> pyfloat option" where
  "ingredient_cost_for_store_st self ing store_name =
     (let price = map_of (price_by_store ing) store_name
      in case price of
           None \<Rightarrow> (self, None)
         | Some p \<Rightarrow> (self, Some (cost_func (quantity ing) p)))"

fun collect_costs_st ::
  "RecipeCost \<Rightarrow> ingredient list \<Rightarrow> string \<Rightarrow> pyfloat list \<Rightarrow> RecipeCost \<times> pyfloat list" where
  "collect_costs_st self [] store_name costs = (self, costs)"
| "collect_costs_st self (ing # rest) store_name costs =
     (case ingredient_cost_for_store_st self ing store_name of
        (self', None) \<Rightarrow> collect_costs_st self' rest store_name costs
      | (self', Some c) \<Rightarrow> collect_costs_st self' rest store_name (costs @ [c]))"

definition total_cost_at_store_st :: "RecipeCost \<Rightarrow> string \<Rightarrow> RecipeCost \<times> pynum" where
  "total_cost_at_store_st self store_name =
     (case collect_costs_st self (ingredients self) store_name [] of
        (self', costs) \<Rightarrow> (self', py_sum costs))"

definition per_serving_cost_st :: "RecipeCost \<Rightarrow> string \<Rightarrow> RecipeCost \<times> (error + pynum)" where
  "per_serving_cost_st self store_name =
     (case total_cost_at_store_st self store_name of
        (self', total_cost) \<Rightarrow>
          if servings self' = 0 then (self', Inr (PyInt 0))
          else (self', py_truediv total_cost (PyInt (servings self'))))"

fun collect_store_costs_st ::
  "RecipeCost \<Rightarrow> string list \<Rightarrow> (string \<times> pynum) list \<Rightarrow> RecipeCost \<times> (string \<times> pynum) list" where
  "collect_store_costs_st self [] store_costs = (self, store_costs)"
| "collect_store_costs_st self (store # rest) store_costs =
     (case total_cost_at_store_st self store of
        (self', c) \<Rightarrow> collect_store_costs_st self' rest (store_costs @ [(store, c)]))"

definition cheapest_store_st ::
  "(string list \<Rightarrow> string list) \<Rightarrow> RecipeCost \<Rightarrow>
   RecipeCost \<times> (error + (string option \<times> pynum))" where
  "cheapest_store_st iter self =
     (if ingredients self = [] then (self, Inr (None, PyInt 0))
      else
        let all_stores = iter (store_names self)
        in case collect_store_costs_st self all_stores [] of
             (self', store_costs) \<Rightarrow>
               (case py_min snd store_costs of
                  Inl e \<Rightarrow> (self', Inl e)
                | Inr (store, c) \<Rightarrow> (self', Inr (Some store, c))))"

subsection \<open>Sequences of calls\<close>

datatype call =
    AddIngredient string pyfloat price_dict
  | IngredientCostForStore ingredient string
  | TotalCostAtStore string
  | PerServingCost string
  | CheapestStore

datatype outcome =
    Raised error
  | Returned
  | ReturnedCost "pyfloat option"
  | ReturnedNumber pynum
  | ReturnedPair "string option \<times> pynum"

text \<open>One method call on the object: the object the method leaves and what the call
  gave.\<close>

fun exec :: "(string list \<Rightarrow> string list) \<Rightarrow> RecipeCost \<Rightarrow> call \<Rightarrow> RecipeCost \<times> outcome" where
  "exec iter self (AddIngredient nm qty pbs) =
     (case add_ingredient self nm qty pbs of
        (self', Inl e) \<Rightarrow> (self', Raised e)
      | (self', Inr u) \<Rightarrow> (self', Returned))"
| "exec iter self (IngredientCostForStore ing store_name) =
     (case ingredient_cost_for_store_st self ing store_name of
        (self', c) \<Rightarrow> (self', ReturnedCost c))"
| "exec iter self (TotalCostAtStore store_name) =
     (case total_cost_at_store_st self store_name of
        (self', total_cost) \<Rightarrow> (self', ReturnedNumber total_cost))"
| "exec iter self (PerServingCost store_name) =
     (case per_serving_cost_st self store_name of
        (self', Inl e) \<Rightarrow> (self', Raised e)
      | (self', Inr v) \<Rightarrow> (self', ReturnedNumber v))"
| "exec iter self CheapestStore =
     (case cheapest_store_st iter self of
        (self', Inl e) \<Rightarrow> (self', Raised e)
      | (self', Inr p) \<Rightarrow> (self', ReturnedPair p))"

text \<open>A caller that makes the calls one after the other, catching each exception as the
  interactive loop of the source does.\<close>

fun run :: "(string list \<Rightarrow> string list) \<Rightarrow> RecipeCost \<Rightarrow> call list \<Rightarrow> RecipeCost \<times> outcome list" where
  "run iter self [] = (self, [])"
| "run iter self (c # cs) =
     (case exec iter self c of
        (self', out) \<Rightarrow> (case run iter self' cs of (self'', outs) \<Rightarrow> (self'', out # outs)))"

fun is_add :: "call \<Rightarrow> bool" where
  "is_add (AddIngredient nm qty pbs) = True"
| "is_add c = False"

subsection \<open>Notions used in the statements\<close>

text \<open>An ingredient is priced at a store when the store is a key of its price map.\<close>

definition priced_at :: "string \<Rightarrow> ingredient \<Rightarrow> bool" where
  "priced_at store_name ing = (store_name \<in> dom (map_of (price_by_store ing)))"

text \<open>The part of the ingredient invariant that \<open>add_ingredient\<close> establishes and that
  \<open>cheapest_store\<close> relies on: no ingredient has an empty price map.\<close>

definition ingredients_priced :: "RecipeCost \<Rightarrow> bool" where
  "ingredients_priced r = list_all (\<lambda>ing. price_by_store ing \<noteq> []) (ingredients r)"

text \<open>The rows the export is specified to hold for one ingredient: one row for each
  (store, price) item of its price map, in the map's order, with
  \<open>cost = quantity * price_per_unit\<close>.\<close>

definition ingredient_rows :: "ingredient \<Rightarrow> csv_row list" where
  "ingredient_rows ing =
     map (\<lambda>(store, price). \<lparr>row_ingredient = ing_name ing, row_quantity = quantity ing,
            row_store = store, row_price_per_unit = price, row_cost = quantity ing * price\<rparr>)
         (price_by_store ing)"

subsection \<open>Example recipes\<close>

text \<open>Each is built as a caller builds it: the constructor, then \<open>add_ingredient\<close>.\<close>

definition pancakes :: RecipeCost where
  "pancakes =
     fst (add_ingredient
           (fst (add_ingredient (RecipeCost_init ''Pancakes'' 4)
                   ''Flour'' (Fin 2) [(''A'', Fin 3), (''B'', Fin 2)]))
           ''Milk'' (Fin 1) [(''A'', Fin 4), (''B'', Fin 5)])"

definition omelette :: RecipeCost where
  "omelette =
     fst (add_ingredient
           (fst (add_ingredient (RecipeCost_init ''Omelette'' 2)
                   ''Egg'' (Fin 3) [(''A'', Fin 2), (''B'', Fin 1)]))
           ''Cheese'' (Fin 1) [(''B'', Fin 6), (''C'', Fin 4)])"


text \<open>A recipe with a NaN price, which \<^verbatim>\<open>price <= 0\<close> does not reject.\<close>

definition stew :: RecipeCost where
  "stew =
     fst (add_ingredient (RecipeCost_init ''Stew'' 2) ''Salt'' (Fin 1) [(''A'', NaN), (''B'', Fin 5)])"



section \<open>Auxiliary facts\<close>

subsection \<open>Float comparisons\<close>

lemma pyfloat_le_trans: "a \<le> b \<Longrightarrow> b \<le> c \<Longrightarrow> a \<le> (c::pyfloat)"
  by (cases a; cases b; cases c) simp_all

lemma pyfloat_less_imp_le: "a < b \<Longrightarrow> a \<le> (b::pyfloat)"
  by (cases a; cases b) simp_all

lemma pyfloat_not_less: "a \<noteq> NaN \<Longrightarrow> b \<noteq> NaN \<Longrightarrow> \<not> a < b \<Longrightarrow> b \<le> (a::pyfloat)"
  by (cases a; cases b) simp_all

lemma pyfloat_le_refl: "a \<noteq> NaN \<Longrightarrow> a \<le> (a::pyfloat)"
  by (cases a) simp_all

lemma pyfloat_NaN_le [simp]: "\<not> NaN \<le> (a::pyfloat)" "\<not> a \<le> (NaN::pyfloat)"
  by (cases a, simp_all)+

lemma is_nan_num_val: "is_nan v \<longleftrightarrow> num_val v = NaN"
  by (cases v rule: is_nan.cases) simp_all

lemma pynum_le_trans: "a \<le> b \<Longrightarrow> b \<le> c \<Longrightarrow> a \<le> (c::pynum)"
  unfolding less_eq_pynum_def by (rule pyfloat_le_trans)

lemma pynum_less_imp_le: "a < b \<Longrightarrow> a \<le> (b::pynum)"
  unfolding less_eq_pynum_def less_pynum_def by (rule pyfloat_less_imp_le)

lemma pynum_not_less: "\<not> is_nan a \<Longrightarrow> \<not> is_nan b \<Longrightarrow> \<not> a < b \<Longrightarrow> b \<le> (a::pynum)"
  unfolding less_eq_pynum_def less_pynum_def is_nan_num_val by (rule pyfloat_not_less)

lemma pynum_le_refl: "\<not> is_nan a \<Longrightarrow> a \<le> (a::pynum)"
  unfolding less_eq_pynum_def is_nan_num_val by (rule pyfloat_le_refl)

lemma pynum_NaN_not_le: "is_nan a \<Longrightarrow> \<not> a \<le> (b::pynum)"
  by (simp add: less_eq_pynum_def is_nan_num_val)

subsection \<open>Loops as list functions\<close>

lemma fold_add_acc:
  "fold (\<lambda>x acc. PyFloat (num_val acc + x)) xs (PyFloat a) = PyFloat (a + sum_list xs)"
  by (induction xs arbitrary: a) (simp_all add: add.assoc)

lemma py_sum_Nil: "py_sum [] = PyInt 0"
  by (simp add: py_sum_def)

lemma py_sum_Cons: "py_sum (x # xs) = PyFloat (sum_list (x # xs))"
  by (simp add: py_sum_def fold_add_acc zero_pyfloat_def [symmetric])

lemma num_val_py_sum: "num_val (py_sum xs) = sum_list xs"
  by (cases xs) (simp_all add: py_sum_Nil py_sum_Cons zero_pyfloat_def del: sum_list.Cons)

lemma collect_costs_acc:
  "collect_costs ings s costs =
     costs @ map (\<lambda>ing. quantity ing * the (map_of (price_by_store ing) s))
               (filter (priced_at s) ings)"
  by (induction ings arbitrary: costs)
     (auto simp: ingredient_cost_for_store_def cost_func_def priced_at_def split: option.splits)

lemma total_cost_py_sum:
  "total_cost_at_store r s =
     py_sum (map (\<lambda>ing. quantity ing * the (map_of (price_by_store ing) s))
               (filter (priced_at s) (ingredients r)))"
  by (simp add: total_cost_at_store_def collect_costs_acc)

lemma collect_store_costs_acc:
  "collect_store_costs r stores acc = acc @ map (\<lambda>s. (s, total_cost_at_store r s)) stores"
  by (induction stores arbitrary: acc) simp_all

subsection \<open>The minimum\<close>

lemma min_loop_mem: "min_loop key best xs \<in> set (best # xs)"
  by (induction xs arbitrary: best) auto

lemma min_loop_le_best:
  fixes key :: "'a \<Rightarrow> pynum"
  assumes "\<forall>x\<in>set (best # xs). \<not> is_nan (key x)"
  shows "key (min_loop key best xs) \<le> key best"
  using assms
proof (induction xs arbitrary: best)
  case Nil
  then show ?case by (simp add: pynum_le_refl)
next
  case (Cons x xs)
  let ?b = "if key x < key best then x else best"
  from Cons.prems have "\<forall>y\<in>set (?b # xs). \<not> is_nan (key y)" by simp
  then have "key (min_loop key ?b xs) \<le> key ?b" by (rule Cons.IH)
  moreover from Cons.prems have "key ?b \<le> key best"
    by (simp add: pynum_less_imp_le pynum_le_refl)
  ultimately have "key (min_loop key ?b xs) \<le> key best" by (rule pynum_le_trans)
  then show ?case by simp
qed

lemma min_loop_least:
  fixes key :: "'a \<Rightarrow> pynum"
  assumes "\<forall>x\<in>set (best # xs). \<not> is_nan (key x)" and "y \<in> set (best # xs)"
  shows "key (min_loop key best xs) \<le> key y"
  using assms
proof (induction xs arbitrary: best)
  case Nil
  then show ?case by (simp add: pynum_le_refl)
next
  case (Cons x xs)
  let ?b = "if key x < key best then x else best"
  from Cons.prems(1) have nn: "\<forall>z\<in>set (?b # xs). \<not> is_nan (key z)" by simp
  then have le_b: "key (min_loop key ?b xs) \<le> key ?b" by (rule min_loop_le_best)
  from Cons.prems(2) consider "y = best" | "y = x" | "y \<in> set xs" by auto
  then show ?case
  proof cases
    case 1
    from Cons.prems(1) have "key ?b \<le> key best"
      by (simp add: pynum_less_imp_le pynum_le_refl)
    with le_b have "key (min_loop key ?b xs) \<le> key best" by (rule pynum_le_trans)
    with 1 show ?thesis by simp
  next
    case 2
    from Cons.prems(1) have "key ?b \<le> key x"
      by (simp add: pynum_not_less pynum_le_refl)
    with le_b have "key (min_loop key ?b xs) \<le> key x" by (rule pynum_le_trans)
    with 2 show ?thesis by simp
  next
    case 3
    then have "y \<in> set (?b # xs)" by simp
    with nn have "key (min_loop key ?b xs) \<le> key y" by (rule Cons.IH)
    then show ?thesis by simp
  qed
qed

lemma set_store_names:
  "set (store_names r) = (\<Union>ing\<in>set (ingredients r). dom (map_of (price_by_store ing)))"
  by (simp add: store_names_def dom_map_of_conv_image_fst)

lemma store_names_nonempty:
  "ingredients r \<noteq> [] \<Longrightarrow> ingredients_priced r \<Longrightarrow> store_names r \<noteq> []"
  by (cases "ingredients r") (auto simp: store_names_def ingredients_priced_def)

text \<open>Whatever the totals are, the result is one of the stores with its total.\<close>

lemma cheapest_store_result:
  assumes it: "set_iteration iter" and ne: "store_names r \<noteq> []" and ings: "ingredients r \<noteq> []"
  shows "\<exists>store. cheapest_store iter r = Inr (Some store, total_cost_at_store r store)
           \<and> store \<in> set (store_names r)"
proof -
  let ?all = "iter (store_names r)"
  from it have set_all: "set ?all = set (store_names r)"
    by (simp add: set_iteration_def)
  with ne have "?all \<noteq> []" by auto
  then obtain s0 rest where all_eq: "?all = s0 # rest" by (cases ?all) auto
  let ?p0 = "(s0, total_cost_at_store r s0)"
  let ?rest = "map (\<lambda>s. (s, total_cost_at_store r s)) rest"
  let ?m = "min_loop snd ?p0 ?rest"
  have "?m \<in> set (?p0 # ?rest)" by (rule min_loop_mem)
  then obtain store where store: "store \<in> set ?all" "?m = (store, total_cost_at_store r store)"
    unfolding all_eq by auto
  have "cheapest_store iter r = Inr (Some store, total_cost_at_store r store)"
    using ings store(2)
    by (simp add: cheapest_store_def collect_store_costs_acc all_eq py_min_def)
  with store(1) set_all show ?thesis by auto
qed

lemma cheapest_store_nonempty:
  assumes it: "set_iteration iter" and ne: "store_names r \<noteq> []" and ings: "ingredients r \<noteq> []"
    and nn: "\<forall>s\<in>set (store_names r). \<not> is_nan (total_cost_at_store r s)"
  shows "\<exists>store. cheapest_store iter r = Inr (Some store, total_cost_at_store r store)
           \<and> store \<in> set (store_names r)
           \<and> (\<forall>s\<in>set (store_names r). total_cost_at_store r store \<le> total_cost_at_store r s)"
proof -
  let ?all = "iter (store_names r)"
  from it have set_all: "set ?all = set (store_names r)"
    by (simp add: set_iteration_def)
  with ne have "?all \<noteq> []" by auto
  then obtain s0 rest where all_eq: "?all = s0 # rest" by (cases ?all) auto
  let ?p0 = "(s0, total_cost_at_store r s0)"
  let ?rest = "map (\<lambda>s. (s, total_cost_at_store r s)) rest"
  let ?m = "min_loop snd ?p0 ?rest"
  have sc_set: "set (?p0 # ?rest) = (\<lambda>s. (s, total_cost_at_store r s)) ` set ?all"
    by (simp add: all_eq)
  have nn': "\<forall>p\<in>set (?p0 # ?rest). \<not> is_nan (snd p)"
    unfolding sc_set using nn set_all by auto
  have "?m \<in> set (?p0 # ?rest)" by (rule min_loop_mem)
  then obtain store where store: "store \<in> set ?all" "?m = (store, total_cost_at_store r store)"
    unfolding sc_set by auto
  have least: "total_cost_at_store r store \<le> total_cost_at_store r s" if "s \<in> set ?all" for s
  proof -
    from that have "(s, total_cost_at_store r s) \<in> set (?p0 # ?rest)"
      unfolding sc_set by (rule imageI)
    with nn' have "snd ?m \<le> snd (s, total_cost_at_store r s)" by (rule min_loop_least)
    then show ?thesis by (simp add: store(2))
  qed
  have "cheapest_store iter r = Inr (Some store, total_cost_at_store r store)"
    using ings store(2)
    by (simp add: cheapest_store_def collect_store_costs_acc all_eq py_min_def)
  with store(1) least set_all show ?thesis by auto
qed

lemma cheapest_store_unpriced:
  assumes "set_iteration iter" and "ingredients r \<noteq> []" and "store_names r = []"
  shows "\<exists>msg. cheapest_store iter r = Inl (ValueError msg)"
proof -
  from assms(1) have "set (iter (store_names r)) = set (store_names r)"
    by (simp add: set_iteration_def)
  with assms(3) have "iter (store_names r) = []" by simp
  with assms(2) show ?thesis
    by (simp add: cheapest_store_def py_min_def)
qed

subsection \<open>Validation\<close>

lemma check_prices_None: "check_prices pbs = None \<longleftrightarrow> (\<forall>(s, p)\<in>set pbs. \<not> p \<le> 0)"
  by (induction pbs rule: check_prices.induct) auto

lemma check_prices_Some: "check_prices pbs = Some e \<Longrightarrow> \<exists>msg. e = ValueError msg"
  by (induction pbs rule: check_prices.induct) (auto split: if_splits)

lemma add_ingredient_fails:
  "nm = [] \<or> qty \<le> 0 \<or> pbs = [] \<or> (\<exists>(s, p)\<in>set pbs. p \<le> 0) \<Longrightarrow>
   \<exists>msg. add_ingredient r nm qty pbs = (r, Inl (ValueError msg))"
proof -
  assume bad: "nm = [] \<or> qty \<le> 0 \<or> pbs = [] \<or> (\<exists>(s, p)\<in>set pbs. p \<le> 0)"
  show ?thesis
  proof (cases "nm = [] \<or> qty \<le> 0 \<or> pbs = []")
    case True
    then show ?thesis
      by (auto simp: add_ingredient_def validate_ingredient_input_def)
  next
    case False
    with bad have "check_prices pbs \<noteq> None"
      by (fastforce simp: check_prices_None)
    then obtain e where e: "check_prices pbs = Some e" by auto
    then obtain msg where "e = ValueError msg" by (auto dest: check_prices_Some)
    with False e show ?thesis
      by (auto simp: add_ingredient_def validate_ingredient_input_def)
  qed
qed

lemma add_ingredient_succeeds:
  "\<not> (nm = [] \<or> qty \<le> 0 \<or> pbs = [] \<or> (\<exists>(s, p)\<in>set pbs. p \<le> 0)) \<Longrightarrow>
   add_ingredient r nm qty pbs =
     (r\<lparr>ingredients := ingredients r
          @ [\<lparr>ing_name = nm, quantity = qty, price_by_store = pbs\<rparr>]\<rparr>, Inr ())"
proof -
  assume ok: "\<not> (nm = [] \<or> qty \<le> 0 \<or> pbs = [] \<or> (\<exists>(s, p)\<in>set pbs. p \<le> 0))"
  then have "check_prices pbs = None"
    by (auto simp: check_prices_None)
  with ok show ?thesis
    by (simp add: add_ingredient_def validate_ingredient_input_def add_ingredient_body_def)
qed

lemma init_priced: "ingredients_priced (RecipeCost_init nm n)"
  by (simp add: ingredients_priced_def RecipeCost_init_def)

lemma add_ingredient_priced:
  "ingredients_priced r \<Longrightarrow> ingredients_priced (fst (add_ingredient r nm qty pbs))"
proof (cases "nm = [] \<or> qty \<le> 0 \<or> pbs = [] \<or> (\<exists>(s, p)\<in>set pbs. p \<le> 0)")
  case True
  assume "ingredients_priced r"
  moreover from add_ingredient_fails [OF True, of r] have "fst (add_ingredient r nm qty pbs) = r"
    by auto
  ultimately show ?thesis by simp
next
  case False
  assume "ingredients_priced r"
  with False show ?thesis
    by (simp add: add_ingredient_succeeds [OF False] ingredients_priced_def)
qed

lemma add_ingredient_recipe_ok:
  "recipe_ok r \<Longrightarrow> dict_ok pbs \<Longrightarrow> recipe_ok (fst (add_ingredient r nm qty pbs))"
proof (cases "nm = [] \<or> qty \<le> 0 \<or> pbs = [] \<or> (\<exists>(s, p)\<in>set pbs. p \<le> 0)")
  case True
  assume "recipe_ok r"
  moreover from add_ingredient_fails [OF True, of r] have "fst (add_ingredient r nm qty pbs) = r"
    by auto
  ultimately show ?thesis by simp
next
  case False
  assume "recipe_ok r" "dict_ok pbs"
  then show ?thesis
    by (simp add: add_ingredient_succeeds [OF False] recipe_ok_def)
qed

subsection \<open>The export\<close>

lemma write_store_rows_acc:
  "write_store_rows nm qty pbs out =
     out @ map (\<lambda>(store, price). DataLine \<lparr>row_ingredient = nm, row_quantity = qty,
                   row_store = store, row_price_per_unit = price, row_cost = qty * price\<rparr>) pbs"
  by (induction nm qty pbs out rule: write_store_rows.induct) simp_all

lemma write_ingredients_acc:
  "write_ingredients ings out = out @ map DataLine (concat (map ingredient_rows ings))"
  by (induction ings arbitrary: out)
     (simp_all add: write_store_rows_acc ingredient_rows_def split_def comp_def)

lemma data_rows_DataLine: "data_rows (map DataLine rws) = rws"
  by (induction rws) simp_all

lemma save_to_csv_eq:
  "save_to_csv r = HeaderLine fieldnames # map DataLine (concat (map ingredient_rows (ingredients r)))"
  by (simp add: save_to_csv_def write_ingredients_acc)

lemma data_rows_save_to_csv:
  "data_rows (save_to_csv r) = concat (map ingredient_rows (ingredients r))"
  by (simp add: save_to_csv_eq data_rows_DataLine)

lemma filter_rows_of_dict:
  fixes d :: price_dict
  assumes "distinct (map fst d)"
  shows "filter (\<lambda>rw. row_store rw = s)
          (map (\<lambda>(store, price). \<lparr>row_ingredient = n, row_quantity = q,
            row_store = store, row_price_per_unit = price, row_cost = q * price\<rparr>) d) =
        (case map_of d s of None \<Rightarrow> []
         | Some p \<Rightarrow> [\<lparr>row_ingredient = n, row_quantity = q,
                    row_store = s, row_price_per_unit = p, row_cost = q * p\<rparr>])"
  using assms
proof (induction d)
  case Nil
  show ?case by simp
next
  case (Cons a d)
  obtain s' p' where a: "a = (s', p')" by (cases a)
  show ?case
  proof (cases "s' = s")
    case True
    with Cons.prems a have "s \<notin> fst ` set d" by simp
    then have "filter (\<lambda>rw. row_store rw = s)
        (map (\<lambda>(store, price). \<lparr>row_ingredient = n, row_quantity = q,
          row_store = store, row_price_per_unit = price, row_cost = q * price\<rparr>) d) = []"
      by (force simp: filter_empty_conv)
    with True a show ?thesis by simp
  next
    case False
    with Cons a show ?thesis by simp
  qed
qed

lemma filter_store_rows:
  "dict_ok (price_by_store ing) \<Longrightarrow>
   filter (\<lambda>rw. row_store rw = s) (ingredient_rows ing) =
     (case map_of (price_by_store ing) s of
        None \<Rightarrow> []
      | Some p \<Rightarrow> [\<lparr>row_ingredient = ing_name ing, row_quantity = quantity ing,
                    row_store = s, row_price_per_unit = p, row_cost = quantity ing * p\<rparr>])"
  unfolding dict_ok_def ingredient_rows_def by (rule filter_rows_of_dict)

lemma ingredient_rows_costs:
  "dict_ok (price_by_store ing) \<Longrightarrow>
   map row_cost (filter (\<lambda>rw. row_store rw = s) (ingredient_rows ing)) =
     (if priced_at s ing then [quantity ing * the (map_of (price_by_store ing) s)] else [])"
  by (auto simp: filter_store_rows priced_at_def split: option.splits)

lemma csv_costs_rows:
  "list_all (\<lambda>ing. dict_ok (price_by_store ing)) ings \<Longrightarrow>
   map row_cost (filter (\<lambda>rw. row_store rw = s) (concat (map ingredient_rows ings))) =
     map (\<lambda>ing. quantity ing * the (map_of (price_by_store ing) s)) (filter (priced_at s) ings)"
  by (induction ings) (simp_all add: ingredient_rows_costs)

subsection \<open>The methods leave the object as it is\<close>

lemma ingredient_cost_for_store_st_eq:
  "ingredient_cost_for_store_st self ing s = (self, ingredient_cost_for_store ing s)"
  by (simp add: ingredient_cost_for_store_st_def ingredient_cost_for_store_def
        split: option.splits)

lemma collect_costs_st_eq:
  "collect_costs_st self ings s costs = (self, collect_costs ings s costs)"
  by (induction ings arbitrary: costs)
     (simp_all add: ingredient_cost_for_store_st_eq split: option.splits)

lemma total_cost_at_store_st_eq:
  "total_cost_at_store_st self s = (self, total_cost_at_store self s)"
  by (simp add: total_cost_at_store_st_def total_cost_at_store_def collect_costs_st_eq)

lemma per_serving_cost_st_eq:
  "per_serving_cost_st self s = (self, per_serving_cost self s)"
  by (simp add: per_serving_cost_st_def per_serving_cost_def total_cost_at_store_st_eq)

lemma collect_store_costs_st_eq:
  "collect_store_costs_st self stores acc = (self, collect_store_costs self stores acc)"
  by (induction stores arbitrary: acc) (simp_all add: total_cost_at_store_st_eq)

lemma cheapest_store_st_eq:
  "cheapest_store_st iter self = (self, cheapest_store iter self)"
  by (simp add: cheapest_store_st_def cheapest_store_def collect_store_costs_st_eq
        split: sum.splits prod.splits)

subsection \<open>Call sequences\<close>

lemma exec_query_state: "\<not> is_add c \<Longrightarrow> fst (exec iter r c) = r"
  by (cases c)
     (simp_all add: ingredient_cost_for_store_st_eq total_cost_at_store_st_eq
        per_serving_cost_st_eq cheapest_store_st_eq split: sum.splits)

lemma exec_add_fst:
  "fst (exec iter r (AddIngredient nm qty pbs)) = fst (add_ingredient r nm qty pbs)"
  by (simp split: prod.splits sum.splits)

lemma run_Cons_fst: "fst (run iter r (c # cs)) = fst (run iter (fst (exec iter r c)) cs)"
  by (simp split: prod.splits)

lemma run_Cons_snd:
  "snd (run iter r (c # cs)) = snd (exec iter r c) # snd (run iter (fst (exec iter r c)) cs)"
  by (simp split: prod.splits)

lemma run_filter_adds: "fst (run iter r cs) = fst (run iter r (filter is_add cs))"
proof (induction cs arbitrary: r)
  case Nil
  show ?case by simp
next
  case (Cons c cs)
  show ?case
  proof (cases "is_add c")
    case True
    then show ?thesis by (simp add: run_Cons_fst Cons.IH [symmetric] del: run.simps(2))
  next
    case False
    then show ?thesis
      by (simp add: run_Cons_fst exec_query_state Cons.IH [symmetric] del: run.simps(2))
  qed
qed

lemma run_nth:
  "i < length cs \<Longrightarrow>
   snd (run iter r cs) ! i = snd (exec iter (fst (run iter r (take i cs))) (cs ! i))"
proof (induction cs arbitrary: r i)
  case Nil
  then show ?case by simp
next
  case (Cons c cs)
  show ?case
  proof (cases i)
    case 0
    then show ?thesis by (simp add: run_Cons_snd del: run.simps(2))
  next
    case (Suc j)
    with Cons.prems have "j < length cs" by simp
    from Cons.IH [OF this, of "fst (exec iter r c)"] Suc show ?thesis
      by (simp add: run_Cons_snd run_Cons_fst del: run.simps(2))
  qed
qed

lemma length_run: "length (snd (run iter r cs)) = length cs"
  by (induction cs arbitrary: r) (simp_all add: run_Cons_snd del: run.simps(2))

lemma exec_priced: "ingredients_priced r \<Longrightarrow> ingredients_priced (fst (exec iter r c))"
proof (cases "is_add c")
  case True
  assume "ingredients_priced r"
  with True show ?thesis
    by (cases c) (simp_all add: exec_add_fst add_ingredient_priced del: exec.simps)
next
  case False
  assume "ingredients_priced r"
  with False show ?thesis by (simp add: exec_query_state)
qed

lemma run_priced: "ingredients_priced r \<Longrightarrow> ingredients_priced (fst (run iter r cs))"
proof (induction cs arbitrary: r)
  case Nil
  then show ?case by simp
next
  case (Cons c cs)
  from Cons.prems have "ingredients_priced (fst (exec iter r c))" by (rule exec_priced)
  then have "ingredients_priced (fst (run iter (fst (exec iter r c)) cs))" by (rule Cons.IH)
  then show ?case by (simp only: run_Cons_fst)
qed

lemma built_priced: "ingredients_priced (fst (run iter (RecipeCost_init nm n) cs))"
  by (rule run_priced) (rule init_priced)

subsection \<open>The example recipes, evaluated\<close>

lemma pancakes_eq:
  "pancakes = \<lparr>name = ''Pancakes'', servings = 4, ingredients =
     [\<lparr>ing_name = ''Flour'', quantity = Fin 2, price_by_store = [(''A'', Fin 3), (''B'', Fin 2)]\<rparr>,
      \<lparr>ing_name = ''Milk'', quantity = Fin 1, price_by_store = [(''A'', Fin 4), (''B'', Fin 5)]\<rparr>]\<rparr>"
  by (simp add: pancakes_def add_ingredient_succeeds RecipeCost_init_def zero_pyfloat_def)

lemma omelette_eq:
  "omelette = \<lparr>name = ''Omelette'', servings = 2, ingredients =
     [\<lparr>ing_name = ''Egg'', quantity = Fin 3, price_by_store = [(''A'', Fin 2), (''B'', Fin 1)]\<rparr>,
      \<lparr>ing_name = ''Cheese'', quantity = Fin 1, price_by_store = [(''B'', Fin 6), (''C'', Fin 4)]\<rparr>]\<rparr>"
  by (simp add: omelette_def add_ingredient_succeeds RecipeCost_init_def zero_pyfloat_def)


lemma stew_eq:
  "stew = \<lparr>name = ''Stew'', servings = 2, ingredients =
     [\<lparr>ing_name = ''Salt'', quantity = Fin 1, price_by_store = [(''A'', NaN), (''B'', Fin 5)]\<rparr>]\<rparr>"
  by (simp add: stew_def add_ingredient_succeeds RecipeCost_init_def zero_pyfloat_def)



subsection \<open>Totals and the division\<close>

lemma total_unpriced:
  "\<forall>ing\<in>set (ingredients r). \<not> priced_at S ing \<Longrightarrow> total_cost_at_store r S = PyInt 0"
proof -
  assume "\<forall>ing\<in>set (ingredients r). \<not> priced_at S ing"
  then have "filter (priced_at S) (ingredients r) = []" by (simp add: filter_empty_conv)
  then show ?thesis by (simp add: total_cost_py_sum py_sum_Nil)
qed









subsection \<open>Positive inputs give totals that are numbers\<close>

lemma pyfloat_pos_times: "0 < a \<Longrightarrow> 0 < b \<Longrightarrow> 0 < a * (b::pyfloat)"
  by (cases a; cases b) (simp_all add: zero_pyfloat_def)

lemma pyfloat_nonneg_plus: "0 \<le> a \<Longrightarrow> 0 < b \<Longrightarrow> 0 \<le> a + (b::pyfloat)"
  by (cases a; cases b) (simp_all add: zero_pyfloat_def)

lemma sum_list_pos_nonneg: "\<forall>x\<in>set xs. 0 < x \<Longrightarrow> 0 \<le> (sum_list xs :: pyfloat)"
proof (induction xs)
  case Nil
  show ?case by (simp add: zero_pyfloat_def)
next
  case (Cons x xs)
  then have "0 \<le> sum_list xs" "0 < x" by simp_all
  then have "0 \<le> sum_list xs + x" by (rule pyfloat_nonneg_plus)
  then show ?case by (simp add: add.commute)
qed

lemma total_not_nan:
  assumes "\<forall>ing\<in>set (ingredients r). 0 < quantity ing \<and> (\<forall>p\<in>snd ` set (price_by_store ing). 0 < p)"
  shows "\<not> is_nan (total_cost_at_store r S)"
proof -
  let ?costs = "map (\<lambda>ing. quantity ing * the (map_of (price_by_store ing) S))
                  (filter (priced_at S) (ingredients r))"
  have "0 < x" if "x \<in> set ?costs" for x
  proof -
    from that obtain ing where ing: "ing \<in> set (ingredients r)" "priced_at S ing"
      and x: "x = quantity ing * the (map_of (price_by_store ing) S)" by auto
    from ing(2) obtain p where p: "map_of (price_by_store ing) S = Some p"
      by (auto simp: priced_at_def)
    then have "(S, p) \<in> set (price_by_store ing)" by (rule map_of_SomeD)
    then have "p \<in> snd ` set (price_by_store ing)" by force
    with assms ing(1) have "0 < quantity ing" "0 < p" by auto
    then have "0 < quantity ing * p" by (rule pyfloat_pos_times)
    with x p show ?thesis by simp
  qed
  then have "0 \<le> sum_list ?costs" by (simp add: sum_list_pos_nonneg)
  then have "sum_list ?costs \<noteq> NaN" by auto
  then show ?thesis
    by (simp add: is_nan_num_val total_cost_py_sum num_val_py_sum)
qed

section \<open>The claims\<close>

subsection \<open>C1\<close>

text \<open>
  Claim C1, amended. Let \<open>iter\<close> be an iteration order of sets. For a recipe with no
  ingredient \<open>cheapest_store\<close> returns \<open>(None, 0)\<close>. For a recipe with at least one
  ingredient, none of them with an empty price map (what \<open>add_ingredient\<close> guarantees for
  every recipe built through the class; see \<open>built_priced\<close>), and with no store whose
  total is NaN, it returns a pair \<open>(store, total)\<close> where \<open>store\<close> is a key of some
  ingredient's price map, \<open>total\<close> is \<open>total_cost_at_store\<close> of that store, and no store
  of the union has a smaller total. Totals are numbers whenever all quantities and prices
  are positive (\<open>total_not_nan\<close>).

  Without the condition on NaN the statement fails: \<^verbatim>\<open>price <= 0\<close> is false for a NaN
  price, so the decorator accepts it, and \<^verbatim>\<open>min\<close> keeps a first candidate whose total is
  NaN, because no later total compares \<^verbatim>\<open><\<close> with it. The counterexample follows the
  witness.
\<close>

theorem cheapest_store_spec:
  assumes "set_iteration iter"
  shows "(ingredients r = [] \<longrightarrow> cheapest_store iter r = Inr (None, PyInt 0))
   \<and> (ingredients r \<noteq> [] \<and> ingredients_priced r
        \<and> (\<forall>s\<in>(\<Union>ing\<in>set (ingredients r). dom (map_of (price_by_store ing))).
               \<not> is_nan (total_cost_at_store r s)) \<longrightarrow>
        (\<exists>store total.
           cheapest_store iter r = Inr (Some store, total)
           \<and> store \<in> (\<Union>ing\<in>set (ingredients r). dom (map_of (price_by_store ing)))
           \<and> total = total_cost_at_store r store
           \<and> (\<forall>s\<in>(\<Union>ing\<in>set (ingredients r). dom (map_of (price_by_store ing))).
                 total \<le> total_cost_at_store r s)))"
proof (intro conjI impI)
  assume "ingredients r = []"
  then show "cheapest_store iter r = Inr (None, PyInt 0)"
    by (simp add: cheapest_store_def)
next
  let ?U = "\<Union>ing\<in>set (ingredients r). dom (map_of (price_by_store ing))"
  assume a: "ingredients r \<noteq> [] \<and> ingredients_priced r
               \<and> (\<forall>s\<in>?U. \<not> is_nan (total_cost_at_store r s))"
  then have ne: "store_names r \<noteq> []" by (simp add: store_names_nonempty)
  from a have ings: "ingredients r \<noteq> []" by simp
  from a have nn: "\<forall>s\<in>set (store_names r). \<not> is_nan (total_cost_at_store r s)"
    unfolding set_store_names by blast
  from cheapest_store_nonempty [OF assms ne ings nn] obtain store where
    res: "cheapest_store iter r = Inr (Some store, total_cost_at_store r store)"
    and mem: "store \<in> set (store_names r)"
    and least: "\<forall>s\<in>set (store_names r).
                  total_cost_at_store r store \<le> total_cost_at_store r s"
    by blast
  from mem have "store \<in> ?U" by (simp only: set_store_names)
  moreover from least have "\<forall>s\<in>?U. total_cost_at_store r store \<le> total_cost_at_store r s"
    by (simp only: set_store_names)
  ultimately show "\<exists>store total.
           cheapest_store iter r = Inr (Some store, total)
           \<and> store \<in> ?U
           \<and> total = total_cost_at_store r store
           \<and> (\<forall>s\<in>?U. total \<le> total_cost_at_store r s)"
    using res by (intro exI [of _ store] exI [of _ "total_cost_at_store r store"]) simp
qed

theorem cheapest_store_spec_witness:
  "set_iteration remdups \<and> ingredients omelette \<noteq> [] \<and> ingredients_priced omelette
   \<and> \<not> is_nan (total_cost_at_store omelette ''A'')
   \<and> \<not> is_nan (total_cost_at_store omelette ''B'')
   \<and> \<not> is_nan (total_cost_at_store omelette ''C'')
   \<and> cheapest_store remdups (RecipeCost_init ''Empty'' 1) = Inr (None, PyInt 0)
   \<and> (\<exists>store total.
         cheapest_store remdups omelette = Inr (Some store, total)
         \<and> store \<in> (\<Union>ing\<in>set (ingredients omelette). dom (map_of (price_by_store ing)))
         \<and> total = total_cost_at_store omelette store
         \<and> (\<forall>s\<in>(\<Union>ing\<in>set (ingredients omelette). dom (map_of (price_by_store ing))).
               total \<le> total_cost_at_store omelette s))"
proof -
  have 1: "set_iteration remdups" by (simp add: set_iteration_def)
  have 2: "ingredients omelette \<noteq> []" by (simp add: omelette_eq)
  have 3: "ingredients_priced omelette" by (simp add: omelette_eq ingredients_priced_def)
  have 4: "ingredients (RecipeCost_init ''Empty'' 1) = []" by (simp add: RecipeCost_init_def)
  have A: "total_cost_at_store omelette ''A'' = PyFloat (Fin 6)"
    by (simp add: omelette_eq total_cost_at_store_def py_sum_def ingredient_cost_for_store_def
          cost_func_def)
  have B: "total_cost_at_store omelette ''B'' = PyFloat (Fin 9)"
    by (simp add: omelette_eq total_cost_at_store_def py_sum_def ingredient_cost_for_store_def
          cost_func_def)
  have C: "total_cost_at_store omelette ''C'' = PyFloat (Fin 4)"
    by (simp add: omelette_eq total_cost_at_store_def py_sum_def ingredient_cost_for_store_def
          cost_func_def)
  have U: "(\<Union>ing\<in>set (ingredients omelette). dom (map_of (price_by_store ing)))
             = {''A'', ''B'', ''C''}"
    by (auto simp: omelette_eq)
  have 5: "\<forall>s\<in>(\<Union>ing\<in>set (ingredients omelette). dom (map_of (price_by_store ing))).
         \<not> is_nan (total_cost_at_store omelette s)"
    by (simp only: U) (simp add: A B C)
  have 6: "\<not> is_nan (total_cost_at_store omelette ''A'')
      \<and> \<not> is_nan (total_cost_at_store omelette ''B'')
      \<and> \<not> is_nan (total_cost_at_store omelette ''C'')"
    by (simp add: A B C)
  from 2 3 5 cheapest_store_spec [OF 1, of omelette]
  have 7: "\<exists>store total.
         cheapest_store remdups omelette = Inr (Some store, total)
         \<and> store \<in> (\<Union>ing\<in>set (ingredients omelette). dom (map_of (price_by_store ing)))
         \<and> total = total_cost_at_store omelette store
         \<and> (\<forall>s\<in>(\<Union>ing\<in>set (ingredients omelette). dom (map_of (price_by_store ing))).
               total \<le> total_cost_at_store omelette s)"
    by blast
  from 4 cheapest_store_spec [OF 1, of "RecipeCost_init ''Empty'' 1"]
  have 8: "cheapest_store remdups (RecipeCost_init ''Empty'' 1) = Inr (None, PyInt 0)"
    by blast
  from 1 2 3 6 7 8 show ?thesis by (intro conjI) simp_all
qed

theorem cheapest_store_counterexample:
  "set_iteration remdups
   \<and> ingredients stew \<noteq> [] \<and> ingredients_priced stew
   \<and> cheapest_store remdups stew = Inr (Some ''A'', PyFloat NaN)
   \<and> ''B'' \<in> set (store_names stew)
   \<and> total_cost_at_store stew ''B'' = PyFloat (Fin 5)
   \<and> \<not> PyFloat NaN \<le> total_cost_at_store stew ''B''"
proof -
  have A: "total_cost_at_store stew ''A'' = PyFloat NaN"
    by (simp add: stew_eq total_cost_at_store_def py_sum_def ingredient_cost_for_store_def
          cost_func_def)
  have B: "total_cost_at_store stew ''B'' = PyFloat (Fin 5)"
    by (simp add: stew_eq total_cost_at_store_def py_sum_def ingredient_cost_for_store_def
          cost_func_def)
  have names: "store_names stew = [''A'', ''B'']"
    by (simp add: stew_eq store_names_def)
  have "ingredients stew \<noteq> []" by (simp add: stew_eq)
  then have "cheapest_store remdups stew = Inr (Some ''A'', PyFloat NaN)"
    by (simp add: cheapest_store_def names A B py_min_def less_pynum_def)
  moreover have "set_iteration remdups" by (simp add: set_iteration_def)
  moreover have "ingredients_priced stew" by (simp add: stew_eq ingredients_priced_def)
  moreover have "\<not> PyFloat NaN \<le> PyFloat (Fin 5)" by (simp add: less_eq_pynum_def)
  ultimately show ?thesis using B names \<open>ingredients stew \<noteq> []\<close> by simp
qed

subsection \<open>C2\<close>

text \<open>
  Claim C2. \<open>total_cost_at_store S\<close> is the sum of \<open>quantity * price\<close> over exactly the
  ingredients priced at \<open>S\<close>: its value is their sum, and it is Python's \<^verbatim>\<open>sum\<close> of the
  list of their products. The list of costs that is summed holds one entry for each
  such ingredient and none for the others. The total is 0 (the int that \<^verbatim>\<open>sum\<close> starts
  from) for an empty ingredient list and when no ingredient is priced at \<open>S\<close>.
\<close>

theorem total_cost_at_store_spec:
  "num_val (total_cost_at_store r S) =
     (\<Sum>ing\<leftarrow>filter (priced_at S) (ingredients r).
        quantity ing * the (map_of (price_by_store ing) S))
   \<and> total_cost_at_store r S =
       py_sum (map (\<lambda>ing. quantity ing * the (map_of (price_by_store ing) S))
                 (filter (priced_at S) (ingredients r)))
   \<and> collect_costs (ingredients r) S [] =
       map (\<lambda>ing. quantity ing * the (map_of (price_by_store ing) S))
         (filter (priced_at S) (ingredients r))
   \<and> (ingredients r = [] \<longrightarrow> total_cost_at_store r S = PyInt 0)
   \<and> ((\<forall>ing\<in>set (ingredients r). \<not> priced_at S ing) \<longrightarrow> total_cost_at_store r S = PyInt 0)"
proof (intro conjI impI)
  show "num_val (total_cost_at_store r S) =
     (\<Sum>ing\<leftarrow>filter (priced_at S) (ingredients r).
        quantity ing * the (map_of (price_by_store ing) S))"
    by (simp only: total_cost_py_sum num_val_py_sum)
  show "total_cost_at_store r S =
       py_sum (map (\<lambda>ing. quantity ing * the (map_of (price_by_store ing) S))
                 (filter (priced_at S) (ingredients r)))"
    by (rule total_cost_py_sum)
  show "collect_costs (ingredients r) S [] =
       map (\<lambda>ing. quantity ing * the (map_of (price_by_store ing) S))
         (filter (priced_at S) (ingredients r))"
    by (simp add: collect_costs_acc)
  show "total_cost_at_store r S = PyInt 0" if "ingredients r = []"
    using that by (simp add: total_unpriced)
  show "total_cost_at_store r S = PyInt 0" if "\<forall>ing\<in>set (ingredients r). \<not> priced_at S ing"
    using that by (rule total_unpriced)
qed

theorem total_cost_at_store_spec_witness:
  "num_val (total_cost_at_store pancakes ''A'') = Fin 10
   \<and> total_cost_at_store pancakes ''C'' = PyInt 0
   \<and> total_cost_at_store (RecipeCost_init ''Empty'' 1) ''A'' = PyInt 0"
proof -
  have none: "\<forall>ing\<in>set (ingredients pancakes). \<not> priced_at ''C'' ing"
    by (simp add: pancakes_eq priced_at_def)
  have empty: "ingredients (RecipeCost_init ''Empty'' 1) = []"
    by (simp add: RecipeCost_init_def)
  from total_cost_at_store_spec [of pancakes "''A''", THEN conjunct1]
  have 1: "num_val (total_cost_at_store pancakes ''A'') = Fin 10"
    by (simp add: pancakes_eq priced_at_def zero_pyfloat_def)
  from total_cost_at_store_spec [of pancakes "''C''"] none
  have 2: "total_cost_at_store pancakes ''C'' = PyInt 0" by blast
  from total_cost_at_store_spec [of "RecipeCost_init ''Empty'' 1" "''A''"] empty
  have 3: "total_cost_at_store (RecipeCost_init ''Empty'' 1) ''A'' = PyInt 0" by blast
  from 1 2 3 show ?thesis by (intro conjI)
qed

subsection \<open>C3\<close>



subsection \<open>C4\<close>




subsection \<open>C5\<close>

text \<open>
  Claim C5. \<open>ingredient_cost_for_store\<close> returns \<open>quantity * price\<close> when the store is a
  key of the ingredient's price map with value \<open>price\<close>, and \<open>None\<close> (neither zero nor an
  error) when the store is not a key.
\<close>

theorem ingredient_cost_for_store_spec:
  "(map_of (price_by_store ing) S = Some price \<longrightarrow>
      ingredient_cost_for_store ing S = Some (quantity ing * price))
   \<and> (S \<notin> dom (map_of (price_by_store ing)) \<longrightarrow> ingredient_cost_for_store ing S = None)"
  by (auto simp: ingredient_cost_for_store_def cost_func_def split: option.splits)

theorem ingredient_cost_for_store_spec_witness:
  "ingredient_cost_for_store
     \<lparr>ing_name = ''Flour'', quantity = Fin 2, price_by_store = [(''A'', Fin 3), (''B'', Fin 2)]\<rparr>
     ''B'' = Some (Fin 4)
   \<and> ingredient_cost_for_store
     \<lparr>ing_name = ''Flour'', quantity = Fin 2, price_by_store = [(''A'', Fin 3), (''B'', Fin 2)]\<rparr>
     ''C'' = None"
  using ingredient_cost_for_store_spec
          [of "\<lparr>ing_name = ''Flour'', quantity = Fin 2,
                price_by_store = [(''A'', Fin 3), (''B'', Fin 2)]\<rparr>" "''B''" "Fin 2"]
        ingredient_cost_for_store_spec
          [of "\<lparr>ing_name = ''Flour'', quantity = Fin 2,
                price_by_store = [(''A'', Fin 3), (''B'', Fin 2)]\<rparr>" "''C''" "Fin 0"]
  by simp

subsection \<open>C6\<close>

text \<open>
  Claim C6. For the recipe Pancakes with 4 servings, Flour (2, A: 3, B: 2) and Milk
  (1, A: 4, B: 5): the total at A is 10, the total at B is 9, \<open>cheapest_store\<close> returns
  \<open>(B, 9)\<close> whatever the iteration order of the set of stores, and the cost per serving
  at B is 9/4 = 2.25.
\<close>

theorem pancakes_scenario:
  "total_cost_at_store pancakes ''A'' = PyFloat (Fin 10)
   \<and> total_cost_at_store pancakes ''B'' = PyFloat (Fin 9)
   \<and> (\<forall>iter. set_iteration iter \<longrightarrow>
         cheapest_store iter pancakes = Inr (Some ''B'', PyFloat (Fin 9)))
   \<and> per_serving_cost pancakes ''B'' = Inr (PyFloat (Fin (9 / 4)))"
proof -
  have A: "total_cost_at_store pancakes ''A'' = PyFloat (Fin 10)"
    by (simp add: pancakes_eq total_cost_at_store_def py_sum_def ingredient_cost_for_store_def
          cost_func_def)
  have B: "total_cost_at_store pancakes ''B'' = PyFloat (Fin 9)"
    by (simp add: pancakes_eq total_cost_at_store_def py_sum_def ingredient_cost_for_store_def
          cost_func_def)
  have names: "set (store_names pancakes) = {''A'', ''B''}"
    by (auto simp: pancakes_eq store_names_def)
  have ings: "ingredients pancakes \<noteq> []" by (simp add: pancakes_eq)
  have cheapest: "cheapest_store iter pancakes = Inr (Some ''B'', PyFloat (Fin 9))"
    if it: "set_iteration iter" for iter
  proof -
    have ne: "store_names pancakes \<noteq> []"
      by (simp add: pancakes_eq store_names_def)
    have nn: "\<forall>s\<in>set (store_names pancakes). \<not> is_nan (total_cost_at_store pancakes s)"
      by (simp add: names A B)
    from cheapest_store_nonempty [OF it ne ings nn] obtain store where
      res: "cheapest_store iter pancakes = Inr (Some store, total_cost_at_store pancakes store)"
      and mem: "store \<in> set (store_names pancakes)"
      and least: "\<forall>s\<in>set (store_names pancakes).
                    total_cost_at_store pancakes store \<le> total_cost_at_store pancakes s"
      by blast
    from mem have "store \<in> {''A'', ''B''}" by (simp only: names)
    then have cases: "store = ''A'' \<or> store = ''B''" by simp
    have "''B'' \<in> set (store_names pancakes)" by (simp only: names) simp
    with least have "total_cost_at_store pancakes store \<le> total_cost_at_store pancakes ''B''"
      by (rule bspec)
    then have le: "total_cost_at_store pancakes store \<le> PyFloat (Fin 9)" by (simp only: B)
    have "store \<noteq> ''A''"
    proof
      assume "store = ''A''"
      with le have "total_cost_at_store pancakes ''A'' \<le> PyFloat (Fin 9)" by simp
      then show False by (simp add: A less_eq_pynum_def)
    qed
    with cases have "store = ''B''" by simp
    with res B show ?thesis by simp
  qed
  have P: "per_serving_cost pancakes ''B'' = Inr (PyFloat (Fin (9 / 4)))"
    using B
    by (simp add: per_serving_cost_def) (simp add: pancakes_eq float_of_int_def
          float_truediv_def dbl_overflow_def)
  from A B cheapest P show ?thesis by (intro conjI allI impI)
qed

theorem pancakes_scenario_witness:
  "set_iteration remdups
   \<and> cheapest_store remdups pancakes = Inr (Some ''B'', PyFloat (Fin 9))"
proof -
  have 1: "set_iteration remdups" by (simp add: set_iteration_def)
  with pancakes_scenario show ?thesis by blast
qed

subsection \<open>C7\<close>

text \<open>
  Claim C7. For a recipe whose price maps are dicts (no key twice) and every store
  \<open>S\<close>, the sum of the cost column over the exported rows whose store is \<open>S\<close> is
  \<open>total_cost_at_store S\<close>.
\<close>

theorem csv_round_trip_spec:
  "recipe_ok r \<Longrightarrow> csv_cost_sum (save_to_csv r) S = total_cost_at_store r S"
  by (simp add: csv_cost_sum_def data_rows_save_to_csv recipe_ok_def csv_costs_rows
        total_cost_py_sum)

theorem csv_round_trip_spec_witness:
  "recipe_ok omelette \<and> csv_cost_sum (save_to_csv omelette) ''B'' = PyFloat (Fin 9)
   \<and> total_cost_at_store omelette ''B'' = PyFloat (Fin 9)"
proof -
  have ok: "recipe_ok omelette" by (simp add: omelette_eq recipe_ok_def dict_ok_def)
  have "total_cost_at_store omelette ''B'' = PyFloat (Fin 9)"
    by (simp add: omelette_eq total_cost_at_store_def py_sum_def ingredient_cost_for_store_def
          cost_func_def)
  with ok csv_round_trip_spec [OF ok, of "''B''"] show ?thesis by simp
qed

subsection \<open>C8\<close>

text \<open>
  Claim C8. The export is the header row followed by the rows of the ingredients in
  insertion order, the rows of one ingredient following the order of its price map.
  In every row \<open>cost = quantity * price_per_unit\<close>. For an ingredient whose price map
  has no key twice, each store of the map has exactly one row, which holds the map's
  price, and a store outside the map has none.
\<close>

theorem save_to_csv_spec:
  "save_to_csv r =
     HeaderLine fieldnames # map DataLine (concat (map ingredient_rows (ingredients r)))
   \<and> (\<forall>rw\<in>set (data_rows (save_to_csv r)). row_cost rw = row_quantity rw * row_price_per_unit rw)
   \<and> (\<forall>ing\<in>set (ingredients r).
        map row_store (ingredient_rows ing) = map fst (price_by_store ing)
        \<and> (dict_ok (price_by_store ing) \<longrightarrow>
             (\<forall>s. case map_of (price_by_store ing) s of
                    None \<Rightarrow> filter (\<lambda>rw. row_store rw = s) (ingredient_rows ing) = []
                  | Some p \<Rightarrow> filter (\<lambda>rw. row_store rw = s) (ingredient_rows ing) =
                      [\<lparr>row_ingredient = ing_name ing, row_quantity = quantity ing,
                        row_store = s, row_price_per_unit = p,
                        row_cost = quantity ing * p\<rparr>])))"
proof (intro conjI ballI impI allI)
  show "save_to_csv r =
     HeaderLine fieldnames # map DataLine (concat (map ingredient_rows (ingredients r)))"
    by (rule save_to_csv_eq)
next
  fix rw assume "rw \<in> set (data_rows (save_to_csv r))"
  then show "row_cost rw = row_quantity rw * row_price_per_unit rw"
    by (auto simp: data_rows_save_to_csv ingredient_rows_def)
next
  fix ing :: ingredient
  show "map row_store (ingredient_rows ing) = map fst (price_by_store ing)"
    by (simp add: ingredient_rows_def split_def comp_def)
next
  fix ing :: ingredient and s assume "dict_ok (price_by_store ing)"
  then show "case map_of (price_by_store ing) s of
                    None \<Rightarrow> filter (\<lambda>rw. row_store rw = s) (ingredient_rows ing) = []
                  | Some p \<Rightarrow> filter (\<lambda>rw. row_store rw = s) (ingredient_rows ing) =
                      [\<lparr>row_ingredient = ing_name ing, row_quantity = quantity ing,
                        row_store = s, row_price_per_unit = p,
                        row_cost = quantity ing * p\<rparr>]"
    by (simp add: filter_store_rows split: option.splits)
qed

theorem save_to_csv_spec_witness:
  "save_to_csv omelette =
     [HeaderLine [''ingredient'', ''quantity'', ''store'', ''price_per_unit'', ''cost''],
      DataLine \<lparr>row_ingredient = ''Egg'', row_quantity = Fin 3, row_store = ''A'',
                 row_price_per_unit = Fin 2, row_cost = Fin 6\<rparr>,
      DataLine \<lparr>row_ingredient = ''Egg'', row_quantity = Fin 3, row_store = ''B'',
                 row_price_per_unit = Fin 1, row_cost = Fin 3\<rparr>,
      DataLine \<lparr>row_ingredient = ''Cheese'', row_quantity = Fin 1, row_store = ''B'',
                 row_price_per_unit = Fin 6, row_cost = Fin 6\<rparr>,
      DataLine \<lparr>row_ingredient = ''Cheese'', row_quantity = Fin 1, row_store = ''C'',
                 row_price_per_unit = Fin 4, row_cost = Fin 4\<rparr>]
   \<and> \<lparr>ing_name = ''Cheese'', quantity = Fin 1, price_by_store = [(''B'', Fin 6), (''C'', Fin 4)]\<rparr>
        \<in> set (ingredients omelette)
   \<and> dict_ok [(''B'', Fin 6), (''C'', Fin 4)]
   \<and> filter (\<lambda>rw. row_store rw = ''C'')
         (ingredient_rows
            \<lparr>ing_name = ''Cheese'', quantity = Fin 1,
              price_by_store = [(''B'', Fin 6), (''C'', Fin 4)]\<rparr>) =
       [\<lparr>row_ingredient = ''Cheese'', row_quantity = Fin 1, row_store = ''C'',
         row_price_per_unit = Fin 4, row_cost = Fin 4\<rparr>]
   \<and> filter (\<lambda>rw. row_store rw = ''A'')
         (ingredient_rows
            \<lparr>ing_name = ''Cheese'', quantity = Fin 1,
              price_by_store = [(''B'', Fin 6), (''C'', Fin 4)]\<rparr>) = []"
proof -
  let ?cheese = "\<lparr>ing_name = ''Cheese'', quantity = Fin 1,
                   price_by_store = [(''B'', Fin 6), (''C'', Fin 4)]\<rparr>"
  note sp = save_to_csv_spec [of omelette]
  have mem: "?cheese \<in> set (ingredients omelette)" by (simp add: omelette_eq)
  have ok: "dict_ok (price_by_store ?cheese)" by (simp add: dict_ok_def)
  from sp have exported: "save_to_csv omelette =
      HeaderLine fieldnames # map DataLine (concat (map ingredient_rows (ingredients omelette)))"
    by (rule conjunct1)
  from sp [THEN conjunct2, THEN conjunct2, rule_format, OF mem, THEN conjunct2, rule_format, OF ok]
  have rows: "case map_of (price_by_store ?cheese) s of
                None \<Rightarrow> filter (\<lambda>rw. row_store rw = s) (ingredient_rows ?cheese) = []
              | Some p \<Rightarrow> filter (\<lambda>rw. row_store rw = s) (ingredient_rows ?cheese) =
                  [\<lparr>row_ingredient = ing_name ?cheese, row_quantity = quantity ?cheese,
                    row_store = s, row_price_per_unit = p, row_cost = quantity ?cheese * p\<rparr>]"
    for s .
  from rows [of "''C''"] have C: "filter (\<lambda>rw. row_store rw = ''C'') (ingredient_rows ?cheese) =
       [\<lparr>row_ingredient = ''Cheese'', row_quantity = Fin 1, row_store = ''C'',
         row_price_per_unit = Fin 4, row_cost = Fin 4\<rparr>]"
    by simp
  from rows [of "''A''"] have A: "filter (\<lambda>rw. row_store rw = ''A'') (ingredient_rows ?cheese) = []"
    by simp
  from exported have "save_to_csv omelette =
     [HeaderLine [''ingredient'', ''quantity'', ''store'', ''price_per_unit'', ''cost''],
      DataLine \<lparr>row_ingredient = ''Egg'', row_quantity = Fin 3, row_store = ''A'',
                 row_price_per_unit = Fin 2, row_cost = Fin 6\<rparr>,
      DataLine \<lparr>row_ingredient = ''Egg'', row_quantity = Fin 3, row_store = ''B'',
                 row_price_per_unit = Fin 1, row_cost = Fin 3\<rparr>,
      DataLine \<lparr>row_ingredient = ''Cheese'', row_quantity = Fin 1, row_store = ''B'',
                 row_price_per_unit = Fin 6, row_cost = Fin 6\<rparr>,
      DataLine \<lparr>row_ingredient = ''Cheese'', row_quantity = Fin 1, row_store = ''C'',
                 row_price_per_unit = Fin 4, row_cost = Fin 4\<rparr>]"
    by (simp add: omelette_eq ingredient_rows_def fieldnames_def)
  with mem ok C A show ?thesis by simp
qed

subsection \<open>C9\<close>

text \<open>
  Claim C9. Each of the four query methods, run as a method on the object, leaves the
  object as it was (name, servings and ingredients) and returns what the corresponding
  function of the section on queries computes. Hence a query call leaves the recipe
  unchanged; in any sequence of calls the final recipe is the one the \<open>add_ingredient\<close>
  calls alone leave, and each query gives what it gives on the recipe left by the
  \<open>add_ingredient\<close> calls before it.
\<close>

theorem queries_pure:
  "ingredient_cost_for_store_st r ing S = (r, ingredient_cost_for_store ing S)
   \<and> total_cost_at_store_st r S = (r, total_cost_at_store r S)
   \<and> per_serving_cost_st r S = (r, per_serving_cost r S)
   \<and> cheapest_store_st iter r = (r, cheapest_store iter r)
   \<and> (\<not> is_add c \<longrightarrow> fst (exec iter r c) = r)
   \<and> fst (run iter r cs) = fst (run iter r (filter is_add cs))
   \<and> length (snd (run iter r cs)) = length cs
   \<and> (\<forall>i<length cs. \<not> is_add (cs ! i) \<longrightarrow>
        snd (run iter r cs) ! i =
          snd (exec iter (fst (run iter r (filter is_add (take i cs)))) (cs ! i)))"
proof (intro conjI impI allI)
  show "ingredient_cost_for_store_st r ing S = (r, ingredient_cost_for_store ing S)"
    by (rule ingredient_cost_for_store_st_eq)
  show "total_cost_at_store_st r S = (r, total_cost_at_store r S)"
    by (rule total_cost_at_store_st_eq)
  show "per_serving_cost_st r S = (r, per_serving_cost r S)"
    by (rule per_serving_cost_st_eq)
  show "cheapest_store_st iter r = (r, cheapest_store iter r)"
    by (rule cheapest_store_st_eq)
  show "fst (exec iter r c) = r" if "\<not> is_add c"
    using that by (rule exec_query_state)
  show "fst (run iter r cs) = fst (run iter r (filter is_add cs))"
    by (rule run_filter_adds)
  show "length (snd (run iter r cs)) = length cs"
    by (rule length_run)
  show "snd (run iter r cs) ! i =
          snd (exec iter (fst (run iter r (filter is_add (take i cs)))) (cs ! i))"
    if "i < length cs" for i
    using that by (simp only: run_nth run_filter_adds [symmetric])
qed

theorem queries_pure_witness:
  "fst (exec remdups pancakes CheapestStore) = pancakes
   \<and> snd (run remdups pancakes
          [TotalCostAtStore ''A'', AddIngredient ''Egg'' (Fin 3) [(''A'', Fin 1)],
           TotalCostAtStore ''A''])
        ! 2 = ReturnedNumber (PyFloat (Fin 13))"
proof -
  let ?cs = "[TotalCostAtStore ''A'', AddIngredient ''Egg'' (Fin 3) [(''A'', Fin 1)],
              TotalCostAtStore ''A'']"
  let ?r = "pancakes\<lparr>ingredients := ingredients pancakes
              @ [\<lparr>ing_name = ''Egg'', quantity = Fin 3, price_by_store = [(''A'', Fin 1)]\<rparr>]\<rparr>"
  note qp = queries_pure [of pancakes "\<lparr>ing_name = ''Egg'', quantity = Fin 3, price_by_store = []\<rparr>"
              "''A''" remdups CheapestStore ?cs,
              THEN conjunct2, THEN conjunct2, THEN conjunct2, THEN conjunct2]
  have q: "\<not> is_add CheapestStore" by simp
  have len: "2 < length ?cs" by simp
  have nq: "\<not> is_add (?cs ! 2)" by simp
  have adds: "filter is_add (take 2 ?cs) = [AddIngredient ''Egg'' (Fin 3) [(''A'', Fin 1)]]"
    by simp
  have st: "fst (run remdups pancakes [AddIngredient ''Egg'' (Fin 3) [(''A'', Fin 1)]]) = ?r"
    by (simp add: add_ingredient_succeeds zero_pyfloat_def)
  have tot: "total_cost_at_store ?r ''A'' = PyFloat (Fin 13)"
    by (simp add: pancakes_eq total_cost_at_store_def py_sum_def ingredient_cost_for_store_def
          cost_func_def)
  from qp q have 1: "fst (exec remdups pancakes CheapestStore) = pancakes"
    by (simp only: simp_thms)
  from qp [THEN conjunct2, THEN conjunct2, THEN conjunct2, rule_format, OF len nq]
  have "snd (run remdups pancakes ?cs) ! 2 =
          snd (exec remdups (fst (run remdups pancakes (filter is_add (take 2 ?cs)))) (?cs ! 2))" .
  also have "\<dots> = snd (exec remdups ?r (TotalCostAtStore ''A''))"
    by (simp only: adds st) simp
  also have "\<dots> = ReturnedNumber (PyFloat (Fin 13))"
    by (simp add: total_cost_at_store_st_eq tot)
  finally show ?thesis using 1 by simp
qed

subsection \<open>C10\<close>




end
